theory Spec2Isabelle
  imports Complex_Main "HOL-Library.Sublist"
begin

section \<open>AIPDFLab: the component state and the PDF library it calls\<close>

text \<open>
  The program is the single React component \<^verbatim>\<open>AIPDFLab\<close> of \<^verbatim>\<open>src/App.jsx\<close>. Its state is
  four \<^verbatim>\<open>useState\<close> cells (\<^verbatim>\<open>files\<close>, \<^verbatim>\<open>processing\<close>, \<^verbatim>\<open>message\<close>, \<^verbatim>\<open>resultUrl\<close>); its
  operations are asynchronous handlers that call the third-party library \<^verbatim>\<open>pdf-lib\<close>.

  A browser \<^verbatim>\<open>File\<close> is a record of its name, size, advertised MIME type and content; the
  content type \<open>'b\<close> is left open. A parsed document is its page sequence, a list over an open
  type \<open>'p\<close> of pages; a page index is a 0-based position in that list.
\<close>

record 'b pdf_file =
  file_name :: string
  file_size :: nat
  file_type :: string
  file_bytes :: 'b

type_synonym 'p document = "'p list"

text \<open>
  A value thrown by a rejected promise: an \<^verbatim>\<open>Error\<close> object with its \<^verbatim>\<open>name\<close> and
  \<^verbatim>\<open>message\<close>, or a bare string. \<open>errText\<close> is the text that the handlers' expression
  \<^verbatim>\<open>(err.message || err)\<close> contributes to the message: a non-empty \<^verbatim>\<open>message\<close>; for an
  empty one the object itself, which string concatenation renders by
  \<^verbatim>\<open>Error.prototype.toString\<close> as its name; a thrown string as it is.
\<close>

datatype js_thrown = ErrorObject string string | ThrownString string

fun errText :: "js_thrown \<Rightarrow> string" where
  "errText (ErrorObject nm msg) = (if msg = [] then nm else msg)"
| "errText (ThrownString s) = s"

text \<open>
  The result handle: \<^verbatim>\<open>URL.createObjectURL(new Blob([bytes], { type: 'application/pdf' }))\<close>
  is an object URL standing for the serialized bytes \<open>'y\<close> it was made from.
\<close>

datatype 'y url = BlobUrl 'y

text \<open>
  The library \<^verbatim>\<open>pdf-lib\<close> is not part of the repository; the handlers receive it from
  \<^verbatim>\<open>await import('pdf-lib')\<close>. It is a parameter of the model: a record of the three awaited
  primitives that can reject.
  \<^item> \<open>load b ignoreEncryption\<close>: \<^verbatim>\<open>PDFDocument.load(await file.arrayBuffer(), opts)\<close> on the
    content \<open>b\<close> of a file;
  \<^item> \<open>copyPages src indices\<close>: \<^verbatim>\<open>dst.copyPages(src, indices)\<close>, the pages to be added to \<open>dst\<close>;
  \<^item> \<open>save doc\<close>: \<^verbatim>\<open>doc.save()\<close>, the bytes of the document.
  \<open>Inl\<close> is the thrown value.
\<close>

record ('b, 'p, 'y) pdf_lib =
  load :: "'b \<Rightarrow> bool \<Rightarrow> js_thrown + 'p document"
  copyPages :: "'p document \<Rightarrow> nat list \<Rightarrow> js_thrown + 'p list"
  save :: "'p document \<Rightarrow> js_thrown + 'y"

text \<open>The synchronous document primitives, on page sequences.\<close>

definition create :: "'p document" where
  "create = []"

definition getPageCount :: "'p document \<Rightarrow> nat" where
  "getPageCount doc = length doc"

definition getPageIndices :: "'p document \<Rightarrow> nat list" where
  "getPageIndices doc = [0..<length doc]"

definition addPage :: "'p document \<Rightarrow> 'p \<Rightarrow> 'p document" where
  "addPage doc p = doc @ [p]"

text \<open>\<^verbatim>\<open>pages.forEach((p) => doc.addPage(p))\<close>\<close>

definition forEach_addPage :: "'p list \<Rightarrow> 'p document \<Rightarrow> 'p document" where
  "forEach_addPage pages doc = fold (\<lambda>p d. addPage d p) pages doc"

text \<open>The four state cells of the component.\<close>

record ('b, 'y) app_state =
  files :: "'b pdf_file list"
  processing :: bool
  message :: string
  resultUrl :: "'y url option"

subsection \<open>Effects of a handler\<close>

text \<open>
  An asynchronous handler is modelled by the sequence of effects it performs, in order: the
  state setters it calls, the \<^verbatim>\<open>console.error\<close> of its \<^verbatim>\<open>catch\<close> block, and the awaited
  library calls. A setter changes the state; the other effects leave it as it is.
\<close>

datatype ('b, 'p, 'y) effect =
    SetProcessing bool
  | SetMessage string
  | SetResultUrl "'y url"
  | ConsoleError js_thrown
  | ImportPdfLib
  | CreateDoc
  | LoadDoc 'b bool
  | CopyPages "'p document" "nat list"
  | SaveDoc "'p document"

fun apply_effect :: "('b, 'p, 'y) effect \<Rightarrow> ('b, 'y) app_state \<Rightarrow> ('b, 'y) app_state" where
  "apply_effect (SetProcessing b) s = s\<lparr>processing := b\<rparr>"
| "apply_effect (SetMessage m) s = s\<lparr>message := m\<rparr>"
| "apply_effect (SetResultUrl u) s = s\<lparr>resultUrl := Some u\<rparr>"
| "apply_effect _ s = s"

definition run :: "('b, 'p, 'y) effect list \<Rightarrow> ('b, 'y) app_state \<Rightarrow> ('b, 'y) app_state" where
  "run effs s = fold apply_effect effs s"

text \<open>
  A parameter with a default value, \<^verbatim>\<open>function f(x = d)\<close>: the argument is \<open>None\<close> when
  the caller omits it, and the default is taken then.
\<close>

definition default_to :: "'a \<Rightarrow> 'a option \<Rightarrow> 'a" where
  "default_to d arg = (case arg of Some v \<Rightarrow> v | None \<Rightarrow> d)"

text \<open>
  The body of a \<^verbatim>\<open>try\<close> block: the effects performed so far and either the thrown value
  that left the block or the value computed. \<open>await ev r\<close> performs the call \<open>ev\<close> with
  outcome \<open>r\<close>; \<open>andThen\<close> sequences, and a throw skips the rest of the block.
\<close>

type_synonym ('ev, 'a) attempt = "'ev list \<times> (js_thrown + 'a)"

definition await :: "'ev \<Rightarrow> js_thrown + 'a \<Rightarrow> ('ev, 'a) attempt" where
  "await ev r = ([ev], r)"

definition returns :: "'a \<Rightarrow> ('ev, 'a) attempt" where
  "returns a = ([], Inr a)"

definition andThen :: "('ev, 'a) attempt \<Rightarrow> ('a \<Rightarrow> ('ev, 'c) attempt) \<Rightarrow> ('ev, 'c) attempt" where
  "andThen m f =
     (case m of
        (evs, Inl err) \<Rightarrow> (evs, Inl err)
      | (evs, Inr a) \<Rightarrow> (case f a of (evs', r) \<Rightarrow> (evs @ evs', r)))"

section \<open>The handlers\<close>

subsection \<open>File list\<close>

text \<open>
  \<^verbatim>\<open>handleFilesSelected\<close>: the argument is \<^verbatim>\<open>e.target.files\<close>, \<open>None\<close> when it is null or
  undefined. The setter is called with an updater, so it appends to the current list.
\<close>

definition handleFilesSelected ::
  "'b pdf_file list option \<Rightarrow> ('b, 'y) app_state \<Rightarrow> ('b, 'y) app_state" where
  "handleFilesSelected target_files s =
     (let chosen = (case target_files of Some fs \<Rightarrow> fs | None \<Rightarrow> []);
          pdfs = filter (\<lambda>f. file_type f = ''application/pdf'') chosen
      in s\<lparr>files := files s @ pdfs\<rparr>)"

subsection \<open>Merge\<close>

text \<open>The \<^verbatim>\<open>for (const file of files)\<close> loop of \<^verbatim>\<open>mergePdfs\<close>.\<close>

fun merge_loop ::
  "('b, 'p, 'y) pdf_lib \<Rightarrow> 'b pdf_file list \<Rightarrow> 'p document \<Rightarrow>
     (('b, 'p, 'y) effect, 'p document) attempt" where
  "merge_loop L [] mergedPdf = returns mergedPdf"
| "merge_loop L (file # rest) mergedPdf =
     andThen (await (LoadDoc (file_bytes file) False) (load L (file_bytes file) False)) (\<lambda>donor.
     andThen (await (CopyPages donor (getPageIndices donor))
                (copyPages L donor (getPageIndices donor))) (\<lambda>copiedPages.
     merge_loop L rest (forEach_addPage copiedPages mergedPdf)))"

text \<open>Lines 61 to 69: the import, the fresh output document and the loop.\<close>

definition merge_assemble ::
  "js_thrown + ('b, 'p, 'y) pdf_lib \<Rightarrow> 'b pdf_file list \<Rightarrow>
     (('b, 'p, 'y) effect, ('b, 'p, 'y) pdf_lib \<times> 'p document) attempt" where
  "merge_assemble imported fs =
     andThen (await ImportPdfLib imported) (\<lambda>L.
     andThen (await CreateDoc (Inr create)) (\<lambda>mergedPdf.
     andThen (merge_loop L fs mergedPdf) (\<lambda>mergedPdf.
     returns (L, mergedPdf))))"

text \<open>The whole \<^verbatim>\<open>try\<close> block up to the object URL.\<close>

definition merge_try ::
  "js_thrown + ('b, 'p, 'y) pdf_lib \<Rightarrow> 'b pdf_file list \<Rightarrow>
     (('b, 'p, 'y) effect, 'y url) attempt" where
  "merge_try imported fs =
     andThen (merge_assemble imported fs) (\<lambda>(L, mergedPdf).
     andThen (await (SaveDoc mergedPdf) (save L mergedPdf)) (\<lambda>mergedBytes.
     returns (BlobUrl mergedBytes)))"

definition mergePdfs ::
  "js_thrown + ('b, 'p, 'y) pdf_lib \<Rightarrow> ('b, 'y) app_state \<Rightarrow> ('b, 'p, 'y) effect list" where
  "mergePdfs imported s =
     (if length (files s) < 1 then [SetMessage ''Carica almeno 1 PDF.'']
      else
        [SetProcessing True, SetMessage ''Unione in corso...''] @
        (case merge_try imported (files s) of
           (evs, Inr url) \<Rightarrow>
             evs @ [SetResultUrl url, SetMessage ''Unione completata. Scarica il file qui sotto.'']
         | (evs, Inl err) \<Rightarrow>
             evs @ [ConsoleError err, SetMessage (''Errore durante l'unione: '' @ errText err)]) @
        [SetProcessing False])"

subsection \<open>Page removal\<close>

text \<open>
  \<^verbatim>\<open>pagesToRemove.includes(i + 1)\<close> on an array of page numbers. The numbers are integers:
  the caller may pass 0, negative or too large ones.
\<close>

definition array_includes :: "int list \<Rightarrow> int \<Rightarrow> bool" where
  "array_includes arr v = (v \<in> set arr)"

text \<open>
  The loop \<^verbatim>\<open>for (let i = 0; i < total; i++) if (!pagesToRemove.includes(i + 1)) toKeep.push(i)\<close>,
  from the loop variable \<open>i\<close> and the list \<open>toKeep\<close> built so far.
\<close>

function keep_loop :: "nat \<Rightarrow> int list \<Rightarrow> nat \<Rightarrow> nat list \<Rightarrow> nat list" where
  "keep_loop totalPages pagesToRemove i toKeep =
     (if i < totalPages
      then keep_loop totalPages pagesToRemove (i + 1)
             (if \<not> array_includes pagesToRemove (int i + 1) then toKeep @ [i] else toKeep)
      else toKeep)"
  by pat_completeness auto
termination
  by (relation "measure (\<lambda>(totalPages, pagesToRemove, i, toKeep). totalPages - i)") auto

declare keep_loop.simps [simp del]

text \<open>Lines 95 to 99: the page selector.\<close>

definition toKeep_of :: "nat \<Rightarrow> int list \<Rightarrow> nat list" where
  "toKeep_of totalPages pagesToRemove = keep_loop totalPages pagesToRemove 0 []"

text \<open>Lines 90 to 101. The guard has checked \<open>fileIndex < length fs\<close>.\<close>

definition remove_assemble ::
  "js_thrown + ('b, 'p, 'y) pdf_lib \<Rightarrow> 'b pdf_file list \<Rightarrow> nat \<Rightarrow> int list \<Rightarrow>
     (('b, 'p, 'y) effect, ('b, 'p, 'y) pdf_lib \<times> 'p document) attempt" where
  "remove_assemble imported fs fileIndex pagesToRemove =
     andThen (await ImportPdfLib imported) (\<lambda>L.
     andThen (await (LoadDoc (file_bytes (fs ! fileIndex)) False)
                (load L (file_bytes (fs ! fileIndex)) False)) (\<lambda>src.
     andThen (await CreateDoc (Inr create)) (\<lambda>dst.
     (let toKeep = toKeep_of (getPageCount src) pagesToRemove in
      andThen (await (CopyPages src toKeep) (copyPages L src toKeep)) (\<lambda>copied.
      returns (L, forEach_addPage copied dst))))))"

definition remove_try ::
  "js_thrown + ('b, 'p, 'y) pdf_lib \<Rightarrow> 'b pdf_file list \<Rightarrow> nat \<Rightarrow> int list \<Rightarrow>
     (('b, 'p, 'y) effect, 'y url) attempt" where
  "remove_try imported fs fileIndex pagesToRemove =
     andThen (remove_assemble imported fs fileIndex pagesToRemove) (\<lambda>(L, dst).
     andThen (await (SaveDoc dst) (save L dst)) (\<lambda>bytes.
     returns (BlobUrl bytes)))"

text \<open>
  \<^verbatim>\<open>if (!files[fileIndex]) return;\<close>: an index outside the array reads \<^verbatim>\<open>undefined\<close>, and the
  handler returns with no effect. The parameter \<^verbatim>\<open>pagesToRemove = []\<close> has a default.
\<close>

definition removePagesFromPdf ::
  "js_thrown + ('b, 'p, 'y) pdf_lib \<Rightarrow> ('b, 'y) app_state \<Rightarrow> nat \<Rightarrow> int list option \<Rightarrow>
     ('b, 'p, 'y) effect list" where
  "removePagesFromPdf imported s fileIndex pagesToRemove_arg =
     (let pagesToRemove = default_to [] pagesToRemove_arg in
      if \<not> fileIndex < length (files s) then []
      else
        [SetProcessing True, SetMessage ''Rimozione pagine in corso...''] @
        (case remove_try imported (files s) fileIndex pagesToRemove of
           (evs, Inr url) \<Rightarrow>
             evs @ [SetResultUrl url, SetMessage ''Pagine rimosse. Scarica il risultato qui sotto.'']
         | (evs, Inl err) \<Rightarrow>
             evs @ [ConsoleError err, SetMessage (''Errore: '' @ errText err)]) @
        [SetProcessing False])"

subsection \<open>Compression\<close>

text \<open>Lines 123 to 137. The parameter \<open>quality\<close> is a JavaScript number.\<close>

definition compress_assemble ::
  "js_thrown + ('b, 'p, 'y) pdf_lib \<Rightarrow> 'b pdf_file list \<Rightarrow> nat \<Rightarrow> real \<Rightarrow>
     (('b, 'p, 'y) effect, ('b, 'p, 'y) pdf_lib \<times> 'p document) attempt" where
  "compress_assemble imported fs fileIndex quality =
     andThen (await ImportPdfLib imported) (\<lambda>L.
     andThen (await (LoadDoc (file_bytes (fs ! fileIndex)) True)
                (load L (file_bytes (fs ! fileIndex)) True)) (\<lambda>src.
     andThen (await CreateDoc (Inr create)) (\<lambda>outDoc.
     (let numPages = getPageCount src in
      andThen (await (CopyPages src (getPageIndices src))
                 (copyPages L src (getPageIndices src))) (\<lambda>copied.
      returns (L, forEach_addPage copied outDoc))))))"

definition compress_try ::
  "js_thrown + ('b, 'p, 'y) pdf_lib \<Rightarrow> 'b pdf_file list \<Rightarrow> nat \<Rightarrow> real \<Rightarrow>
     (('b, 'p, 'y) effect, 'y url) attempt" where
  "compress_try imported fs fileIndex quality =
     andThen (compress_assemble imported fs fileIndex quality) (\<lambda>(L, outDoc).
     andThen (await (SaveDoc outDoc) (save L outDoc)) (\<lambda>bytes.
     returns (BlobUrl bytes)))"

text \<open>
  The parameter \<^verbatim>\<open>quality = 0.6\<close> has a default. The progress message has the code unit
  U+00F2 after \<^verbatim>\<open>pu\<close>.
\<close>

definition compressPdf ::
  "js_thrown + ('b, 'p, 'y) pdf_lib \<Rightarrow> ('b, 'y) app_state \<Rightarrow> nat \<Rightarrow> real option \<Rightarrow>
     ('b, 'p, 'y) effect list" where
  "compressPdf imported s fileIndex quality_arg =
     (let quality = default_to (6 / 10) quality_arg in
      if \<not> fileIndex < length (files s) then []
      else
        [SetProcessing True,
         SetMessage (''Compressione in corso... questo pu'' @ [CHR 0xF2] @
                     '' richiedere qualche secondo.'')] @
        (case compress_try imported (files s) fileIndex quality of
           (evs, Inr url) \<Rightarrow>
             evs @ [SetResultUrl url,
                    SetMessage (''Compressione (fallback) completata. Per compressione '' @
                                ''migliore usare endpoint server-side con PDF.js.'')]
         | (evs, Inl err) \<Rightarrow>
             evs @ [ConsoleError err,
                    SetMessage (''Errore durante la compressione: '' @ errText err)]) @
        [SetProcessing False])"

section \<open>Contracts and derived notions\<close>

subsection \<open>The library's page copy\<close>

text \<open>
  The design treats the library's page-copy primitive as a black box that yields, for every
  index into the source, a page equivalent to the source's page at that index. On page
  sequences: copying valid indices succeeds and returns the source's pages at those indices,
  in the order of the indices. The theorems about assembled documents assume it of the
  library they are given.
\<close>

definition copy_contract :: "('b, 'p, 'y) pdf_lib \<Rightarrow> bool" where
  "copy_contract L =
     (\<forall>src indices. (\<forall>i \<in> set indices. i < length src) \<longrightarrow>
        copyPages L src indices = Inr (map ((!) src) indices))"

text \<open>
  The document assembler in the design's words: given an ordered list of pairs of a source
  document and the page indices to copy from it, start from an empty document and, for each
  pair in order, append the pages at those indices in the order given. The copy-all assembly
  of one source takes every index of it.
\<close>

definition assemble_spec :: "('p document \<times> nat list) list \<Rightarrow> 'p document" where
  "assemble_spec pairs = concat (map (\<lambda>(src, indices). map ((!) src) indices) pairs)"

definition copy_all_spec :: "'p document \<Rightarrow> 'p document" where
  "copy_all_spec src = assemble_spec [(src, [0..<length src])]"

text \<open>The library calls of the merge loop when file \<open>k\<close> parses to document \<open>k\<close>.\<close>

definition merge_calls ::
  "'b pdf_file list \<Rightarrow> 'p document list \<Rightarrow> ('b, 'p, 'y) effect list" where
  "merge_calls fs docs =
     concat (map2 (\<lambda>f d. [LoadDoc (file_bytes f) False, CopyPages d [0..<length d]]) fs docs)"

subsection \<open>Reading a handler's effects\<close>

fun is_setter :: "('b, 'p, 'y) effect \<Rightarrow> bool" where
  "is_setter (SetProcessing b) = True"
| "is_setter (SetMessage m) = True"
| "is_setter (SetResultUrl u) = True"
| "is_setter _ = False"

fun sets_result :: "('b, 'p, 'y) effect \<Rightarrow> bool" where
  "sets_result (SetResultUrl u) = True"
| "sets_result _ = False"

text \<open>
  The common shape of the three handlers past their guard: the flag and the progress message,
  the \<^verbatim>\<open>try\<close> block, its success report or the \<^verbatim>\<open>catch\<close> block, and the \<^verbatim>\<open>finally\<close>
  block.
\<close>

definition handler_trace ::
  "string \<Rightarrow> string \<Rightarrow> string \<Rightarrow> (('b, 'p, 'y) effect, 'y url) attempt \<Rightarrow>
     ('b, 'p, 'y) effect list" where
  "handler_trace progress finished lead att =
     [SetProcessing True, SetMessage progress] @
     (case att of
        (evs, Inr url) \<Rightarrow> evs @ [SetResultUrl url, SetMessage finished]
      | (evs, Inl err) \<Rightarrow> evs @ [ConsoleError err, SetMessage (lead @ errText err)]) @
     [SetProcessing False]"

text \<open>
  Idle, Processing, Idle: the effects start by setting the flag and end by clearing it, the
  flag is set in the state after every proper non-empty prefix of the effects, and it is
  clear in the state after all of them.
\<close>

definition processing_bracket :: "('b, 'p, 'y) effect list \<Rightarrow> ('b, 'y) app_state \<Rightarrow> bool" where
  "processing_bracket tr s =
     (tr \<noteq> [] \<and> hd tr = SetProcessing True \<and> last tr = SetProcessing False
      \<and> list_all (\<lambda>k. processing (run (take k tr) s)) [1..<length tr]
      \<and> \<not> processing (run tr s))"

text \<open>
  A failure is reported and nothing is exposed: no effect sets the result handle, the thrown
  value is logged, the handle is what it was, and the message is the handler's lead text
  followed by the text of the thrown value.
\<close>

definition failure_reported ::
  "('b, 'p, 'y) effect list \<Rightarrow> ('b, 'y) app_state \<Rightarrow> string \<Rightarrow> js_thrown \<Rightarrow> bool" where
  "failure_reported tr s lead err =
     (list_all (\<lambda>e. \<not> sets_result e) tr
      \<and> ConsoleError err \<in> set tr
      \<and> resultUrl (run tr s) = resultUrl s
      \<and> message (run tr s) = lead @ errText err)"

definition artifact_produced ::
  "('b, 'p, 'y) effect list \<Rightarrow> ('b, 'y) app_state \<Rightarrow> string \<Rightarrow> 'y url \<Rightarrow> bool" where
  "artifact_produced tr s finished url =
     (SetResultUrl url \<in> set tr
      \<and> resultUrl (run tr s) = Some url
      \<and> message (run tr s) = finished)"

text \<open>
  A complete artifact: the library was imported, every stage succeeded, and the URL stands
  for the serialization of all the pages copied. For a merge every file was parsed and each
  document copied in full; for the handlers on one file, the file was parsed and the pages
  selected by \<open>select\<close> were copied.
\<close>

definition merge_complete ::
  "js_thrown + ('b, 'p, 'y) pdf_lib \<Rightarrow> 'b pdf_file list \<Rightarrow> 'y url \<Rightarrow> bool" where
  "merge_complete imported fs url =
     (\<exists>L docs copies bytes.
        imported = Inr L
        \<and> list_all2 (\<lambda>f d. load L (file_bytes f) False = Inr d) fs docs
        \<and> list_all2 (\<lambda>d c. copyPages L d [0..<length d] = Inr c) docs copies
        \<and> save L (concat copies) = Inr bytes
        \<and> url = BlobUrl bytes)"

definition single_complete ::
  "js_thrown + ('b, 'p, 'y) pdf_lib \<Rightarrow> 'b \<Rightarrow> bool \<Rightarrow> ('p document \<Rightarrow> nat list) \<Rightarrow>
     'y url \<Rightarrow> bool" where
  "single_complete imported b ignoreEncryption select url =
     (\<exists>L src copied bytes.
        imported = Inr L
        \<and> load L b ignoreEncryption = Inr src
        \<and> copyPages L src (select src) = Inr copied
        \<and> save L copied = Inr bytes
        \<and> url = BlobUrl bytes)"

subsection \<open>Example inputs\<close>

text \<open>
  Two instances of the library over pages that are numbers. The content of a file is the
  page sequence it parses to, or \<open>None\<close> for bytes that are not a PDF. \<open>sound_lib\<close> fails
  only on such bytes. \<open>faulty_lib\<close> also fails to copy from a document that has page 7, and
  fails to serialize more than three pages.
\<close>

definition sound_lib :: "(nat list option, nat, nat list) pdf_lib" where
  "sound_lib =
     \<lparr>load = (\<lambda>b ignoreEncryption.
        case b of None \<Rightarrow> Inl (ErrorObject ''Error'' ''Failed to parse PDF document'')
        | Some d \<Rightarrow> Inr d),
      copyPages = (\<lambda>src indices. Inr (map ((!) src) indices)),
      save = (\<lambda>doc. Inr doc)\<rparr>"

definition faulty_lib :: "(nat list option, nat, nat list) pdf_lib" where
  "faulty_lib =
     \<lparr>load = (\<lambda>b ignoreEncryption.
        case b of None \<Rightarrow> Inl (ErrorObject ''Error'' ''Failed to parse PDF document'')
        | Some d \<Rightarrow> Inr d),
      copyPages = (\<lambda>src indices.
        if 7 \<in> set src then Inl (ErrorObject ''TypeError'' [])
        else Inr (map ((!) src) indices)),
      save = (\<lambda>doc. if 3 < length doc then Inl (ThrownString ''out of memory'') else Inr doc)\<rparr>"

definition pdf :: "string \<Rightarrow> 'b \<Rightarrow> 'b pdf_file" where
  "pdf nm b = \<lparr>file_name = nm, file_size = 1, file_type = ''application/pdf'', file_bytes = b\<rparr>"

definition two_files :: "(nat list option, nat list) app_state" where
  "two_files =
     \<lparr>files = [pdf ''a.pdf'' (Some [10, 11, 12, 13, 14]), pdf ''b.pdf'' (Some [20])],
      processing = False, message = [], resultUrl = None\<rparr>"

definition four_files :: "(nat list option, nat list) app_state" where
  "four_files =
     \<lparr>files = [pdf ''a.pdf'' (Some [10, 11, 12, 13, 14]), pdf ''c.pdf'' (Some [7, 8]),
               pdf ''d.pdf'' None, pdf ''b.pdf'' (Some [20])],
      processing = False, message = [], resultUrl = Some (BlobUrl [1])\<rparr>"

definition no_files :: "(nat list option, nat list) app_state" where
  "no_files = \<lparr>files = [], processing = False, message = [], resultUrl = Some (BlobUrl [1])\<rparr>"


section \<open>The page selector\<close>

lemma keep_loop_filter:
  "keep_loop totalPages R i acc = acc @ filter (\<lambda>k. int (k + 1) \<notin> set R) [i..<totalPages]"
proof (induction totalPages R i acc rule: keep_loop.induct)
  case (1 totalPages R i acc)
  show ?case
  proof (cases "i < totalPages")
    case True
    then have "[i..<totalPages] = i # [i + 1..<totalPages]"
      by (simp add: upt_conv_Cons)
    with True 1 show ?thesis
      by (subst keep_loop.simps) (simp add: array_includes_def add.commute)
  next
    case False
    then show ?thesis by (subst keep_loop.simps) simp
  qed
qed

lemma toKeep_of_filter:
  "toKeep_of n R = filter (\<lambda>i. int (i + 1) \<notin> set R) [0..<n]"
  by (simp add: toKeep_of_def keep_loop_filter)

lemma card_removed_pages:
  "card {i. i < n \<and> int (i + 1) \<in> set R} = card (set R \<inter> {1..int n})"
proof -
  have "bij_betw (\<lambda>i. int (i + 1)) {i. i < n \<and> int (i + 1) \<in> set R} (set R \<inter> {1..int n})"
  proof (rule bij_betwI')
    fix x y
    assume "x \<in> {i. i < n \<and> int (i + 1) \<in> set R}" "y \<in> {i. i < n \<and> int (i + 1) \<in> set R}"
    show "(int (x + 1) = int (y + 1)) = (x = y)" by simp
  next
    fix x
    assume "x \<in> {i. i < n \<and> int (i + 1) \<in> set R}"
    then show "int (x + 1) \<in> set R \<inter> {1..int n}" by auto
  next
    fix y
    assume "y \<in> set R \<inter> {1..int n}"
    then have "nat (y - 1) < n \<and> int (nat (y - 1) + 1) \<in> set R \<and> y = int (nat (y - 1) + 1)"
      by auto
    then show "\<exists>x\<in>{i. i < n \<and> int (i + 1) \<in> set R}. y = int (x + 1)"
      by blast
  qed
  then show ?thesis by (rule bij_betw_same_card)
qed

lemma length_toKeep_of:
  "length (toKeep_of n R) = n - card (set R \<inter> {1..int n})"
proof -
  let ?P = "\<lambda>i. int (i + 1) \<in> set R"
  have split: "length (filter ?P [0..<n]) + length (filter (\<lambda>i. \<not> ?P i) [0..<n]) = n"
    using sum_length_filter_compl [of ?P "[0..<n]"] by simp
  have "length (filter ?P [0..<n]) = card (set (filter ?P [0..<n]))"
    by (rule distinct_card [symmetric]) simp
  also have "set (filter ?P [0..<n]) = {i. i < n \<and> ?P i}"
    by auto
  also have "card \<dots> = card (set R \<inter> {1..int n})"
    by (rule card_removed_pages)
  finally have "length (filter (\<lambda>i. \<not> ?P i) [0..<n]) = n - card (set R \<inter> {1..int n})"
    using split by linarith
  then show ?thesis
    unfolding toKeep_of_filter .
qed

lemma toKeep_of_out_of_range:
  "toKeep_of n R = toKeep_of n (filter (\<lambda>r. 1 \<le> r \<and> r \<le> int n) R)"
  unfolding toKeep_of_filter by (rule filter_cong) auto

text \<open>
  Claim C1. For a document of \<open>n\<close> pages and an array \<open>R\<close> of page numbers to remove, the
  page selector of \<^verbatim>\<open>removePagesFromPdf\<close> returns exactly the 0-based indices \<open>i < n\<close>, in
  increasing order of enumeration, whose page number \<open>i + 1\<close> is not in \<open>R\<close>. Numbers of \<open>R\<close>
  outside \<open>1..n\<close> change nothing, an empty \<open>R\<close> keeps every index, and on five pages
  \<open>R = [2]\<close> gives \<open>[0, 2, 3, 4]\<close> and \<open>R = [99]\<close> gives \<open>[0, 1, 2, 3, 4]\<close>. The selector is a
  total function: it returns a list on every input.
\<close>

theorem page_selector_keep_list:
  "toKeep_of n R = filter (\<lambda>i. int (i + 1) \<notin> set R) [0..<n]
   \<and> toKeep_of n R = toKeep_of n (filter (\<lambda>r. 1 \<le> r \<and> r \<le> int n) R)
   \<and> toKeep_of n [] = [0..<n]
   \<and> toKeep_of 5 [2] = [0, 2, 3, 4]
   \<and> toKeep_of 5 [99] = [0, 1, 2, 3, 4]"
proof -
  have "toKeep_of n R = toKeep_of n (filter (\<lambda>r. 1 \<le> r \<and> r \<le> int n) R)"
    by (rule toKeep_of_out_of_range)
  moreover have "toKeep_of n [] = [0..<n]"
    by (simp add: toKeep_of_filter)
  moreover have "toKeep_of 5 [2] = [0, 2, 3, 4]"
    by (simp add: toKeep_of_filter upt_conv_Cons)
  moreover have "toKeep_of 5 [99] = [0, 1, 2, 3, 4]"
    by (simp add: toKeep_of_filter upt_conv_Cons)
  ultimately show ?thesis
    using toKeep_of_filter [of n R] by blast
qed

text \<open>
  Claim C2. The keep-list has \<open>n - |R \<inter> {1..n}|\<close> entries and is strictly increasing.
\<close>

theorem page_selector_length_increasing:
  "length (toKeep_of n R) = n - card (set R \<inter> {1..int n})
   \<and> sorted_wrt (<) (toKeep_of n R)"
proof
  show "length (toKeep_of n R) = n - card (set R \<inter> {1..int n})"
    by (rule length_toKeep_of)
  show "sorted_wrt (<) (toKeep_of n R)"
    by (simp add: toKeep_of_filter sorted_wrt_filter)
qed

section \<open>Sequencing and effects\<close>

lemma andThen_await_Inl: "andThen (await ev (Inl e)) f = ([ev], Inl e)"
  by (simp add: andThen_def await_def)

lemma andThen_await_Inr: "andThen (await ev (Inr a)) f = (ev # fst (f a), snd (f a))"
  by (simp add: andThen_def await_def split: prod.splits)

lemma andThen_Inl: "andThen (evs, Inl e) f = (evs, Inl e)"
  by (simp add: andThen_def)

lemma andThen_Inr: "andThen (evs, Inr a) f = (evs @ fst (f a), snd (f a))"
  by (simp add: andThen_def split: prod.splits)

lemma forEach_addPage_append: "forEach_addPage pages doc = doc @ pages"
  unfolding forEach_addPage_def
  by (induction pages arbitrary: doc) (simp_all add: addPage_def)

lemma await_events: "P ev \<Longrightarrow> \<forall>e \<in> set (fst (await ev r)). P e"
  by (simp add: await_def)

lemma returns_events: "\<forall>e \<in> set (fst (returns a)). P e"
  by (simp add: returns_def)

lemma andThen_events:
  assumes "\<forall>e \<in> set (fst m). P e" and "\<And>a. \<forall>e \<in> set (fst (f a)). P e"
  shows "\<forall>e \<in> set (fst (andThen m f)). P e"
proof (cases m)
  case (Pair evs r)
  show ?thesis
  proof (cases r)
    case (Inl err)
    with Pair assms(1) show ?thesis by (simp add: andThen_def)
  next
    case (Inr a)
    with Pair assms(1) assms(2) [of a] show ?thesis
      by (auto simp: andThen_def split: prod.splits)
  qed
qed

lemma run_append: "run (xs @ ys) s = run ys (run xs s)"
  by (simp add: run_def)

lemma run_Cons: "run (x # xs) s = run xs (apply_effect x s)"
  by (simp add: run_def)

lemma run_Nil: "run [] s = s"
  by (simp add: run_def)

lemma apply_call: "\<not> is_setter e \<Longrightarrow> apply_effect e s = s"
  by (cases e) simp_all

lemma run_calls: "\<forall>e \<in> set evs. \<not> is_setter e \<Longrightarrow> run evs s = s"
  by (induction evs arbitrary: s) (simp_all add: run_Nil run_Cons apply_call)

lemma run_keeps_processing:
  "\<forall>b. SetProcessing b \<notin> set evs \<Longrightarrow> processing (run evs s) = processing s"
proof (induction evs arbitrary: s)
  case Nil
  show ?case by (simp add: run_Nil)
next
  case (Cons e evs)
  then have "processing (apply_effect e s) = processing s"
    by (cases e) auto
  with Cons show ?case by (simp add: run_Cons)
qed

text \<open>The \<^verbatim>\<open>try\<close> blocks perform library calls only; the setters are outside.\<close>

lemma merge_loop_calls: "\<forall>e \<in> set (fst (merge_loop L fs acc)). \<not> is_setter e"
proof (induction fs arbitrary: acc)
  case Nil
  show ?case by (simp add: returns_def)
next
  case (Cons f fs)
  show ?case
    unfolding merge_loop.simps
    by (intro andThen_events await_events Cons.IH) simp_all
qed

lemma merge_try_calls: "\<forall>e \<in> set (fst (merge_try imported fs)). \<not> is_setter e"
  unfolding merge_try_def merge_assemble_def case_prod_beta
  by (intro andThen_events await_events returns_events merge_loop_calls) simp_all

lemma remove_try_calls:
  "\<forall>e \<in> set (fst (remove_try imported fs i R)). \<not> is_setter e"
  unfolding remove_try_def remove_assemble_def case_prod_beta Let_def
  by (intro andThen_events await_events returns_events) simp_all

lemma compress_try_calls:
  "\<forall>e \<in> set (fst (compress_try imported fs i q)). \<not> is_setter e"
  unfolding compress_try_def compress_assemble_def case_prod_beta Let_def
  by (intro andThen_events await_events returns_events) simp_all

section \<open>The shape of a handler run\<close>

lemma mergePdfs_trace:
  "files s \<noteq> [] \<Longrightarrow>
   mergePdfs imported s =
     handler_trace ''Unione in corso...'' ''Unione completata. Scarica il file qui sotto.''
       ''Errore durante l'unione: '' (merge_try imported (files s))"
  by (simp add: mergePdfs_def handler_trace_def split: prod.splits sum.splits)

lemma removePagesFromPdf_trace:
  "fileIndex < length (files s) \<Longrightarrow>
   removePagesFromPdf imported s fileIndex R_arg =
     handler_trace ''Rimozione pagine in corso...''
       ''Pagine rimosse. Scarica il risultato qui sotto.'' ''Errore: ''
       (remove_try imported (files s) fileIndex (default_to [] R_arg))"
  by (simp add: removePagesFromPdf_def handler_trace_def split: prod.splits sum.splits)

lemma compressPdf_trace:
  "fileIndex < length (files s) \<Longrightarrow>
   compressPdf imported s fileIndex q_arg =
     handler_trace
       (''Compressione in corso... questo pu'' @ [CHR 0xF2] @ '' richiedere qualche secondo.'')
       (''Compressione (fallback) completata. Per compressione '' @
        ''migliore usare endpoint server-side con PDF.js.'')
       ''Errore durante la compressione: ''
       (compress_try imported (files s) fileIndex (default_to (6 / 10) q_arg))"
  by (simp add: compressPdf_def handler_trace_def split: prod.splits sum.splits)

lemma bracketI:
  assumes mid: "\<forall>b. SetProcessing b \<notin> set mid"
  shows "processing_bracket (SetProcessing True # mid @ [SetProcessing False]) s"
proof -
  let ?tr = "SetProcessing True # mid @ [SetProcessing False]"
  have "processing (run (take k ?tr) s)" if k: "k \<in> set [1..<length ?tr]" for k
  proof -
    have "length ?tr = Suc (Suc (length mid))"
      by simp
    moreover from k have "1 \<le> k \<and> k < length ?tr"
      unfolding set_upt atLeastLessThan_iff .
    ultimately obtain j where j: "k = Suc j" "j \<le> length mid"
      by (cases k) auto
    then have "take k ?tr = SetProcessing True # take j mid"
      by simp
    moreover have "\<forall>b. SetProcessing b \<notin> set (take j mid)"
      using mid by (meson in_set_takeD)
    ultimately show ?thesis
      by (simp add: run_Cons run_keeps_processing)
  qed
  then have "list_all (\<lambda>k. processing (run (take k ?tr) s)) [1..<length ?tr]"
    unfolding list_all_iff by blast
  moreover have "\<not> processing (run ?tr s)"
    by (simp add: run_Cons run_append run_Nil)
  ultimately show ?thesis
    unfolding processing_bracket_def by simp
qed

lemma handler_trace_bracket:
  assumes "\<forall>e \<in> set (fst att). \<not> is_setter e"
  shows "processing_bracket (handler_trace progress finished lead att) s"
proof (cases att)
  case (Pair evs r)
  with assms have evs: "\<forall>b. SetProcessing b \<notin> set evs"
    by auto
  obtain mid where "handler_trace progress finished lead att =
      SetProcessing True # mid @ [SetProcessing False]"
    and "\<forall>b. SetProcessing b \<notin> set mid"
    using evs Pair by (cases r) (simp_all add: handler_trace_def)
  then show ?thesis
    by (simp add: bracketI)
qed

lemma handler_trace_failed:
  assumes "\<forall>e \<in> set evs. \<not> is_setter e"
  shows "failure_reported (handler_trace progress finished lead (evs, Inl err)) s lead err"
proof -
  have "list_all (\<lambda>e. \<not> sets_result e) evs"
    unfolding list_all_iff
  proof
    fix e assume "e \<in> set evs"
    with assms have "\<not> is_setter e" by blast
    then show "\<not> sets_result e" by (cases e) simp_all
  qed
  then show ?thesis
    using run_calls [OF assms]
    by (simp add: failure_reported_def handler_trace_def run_Cons run_append run_Nil)
qed

lemma handler_trace_succeeded:
  assumes "\<forall>e \<in> set evs. \<not> is_setter e"
  shows "artifact_produced (handler_trace progress finished lead (evs, Inr url)) s finished url"
  using run_calls [OF assms]
  by (simp add: artifact_produced_def handler_trace_def run_Cons run_append run_Nil)

section \<open>Merge\<close>

lemma copy_all_pages:
  "copy_contract L \<Longrightarrow> copyPages L src [0..<length src] = Inr src"
  by (simp add: copy_contract_def map_nth)

lemma sound_lib_contract: "copy_contract sound_lib"
  by (simp add: copy_contract_def sound_lib_def)

lemma merge_loop_concat:
  "copy_contract L \<Longrightarrow> list_all2 (\<lambda>f d. load L (file_bytes f) False = Inr d) fs docs \<Longrightarrow>
   merge_loop L fs acc = (merge_calls fs docs, Inr (acc @ concat docs))"
proof (induction fs arbitrary: acc docs)
  case Nil
  then show ?case by (simp add: returns_def merge_calls_def)
next
  case (Cons f fs)
  from Cons.prems(2) obtain d ds where docs: "docs = d # ds"
    and d: "load L (file_bytes f) False = Inr d"
    and ds: "list_all2 (\<lambda>f d. load L (file_bytes f) False = Inr d) fs ds"
    by (auto simp: list_all2_Cons1)
  have "merge_loop L fs (acc @ d) = (merge_calls fs ds, Inr ((acc @ d) @ concat ds))"
    by (rule Cons.IH [OF Cons.prems(1) ds])
  then show ?case
    by (simp add: d docs andThen_await_Inr copy_all_pages [OF Cons.prems(1)]
        forEach_addPage_append merge_calls_def getPageIndices_def)
qed

lemma merge_assemble_concat:
  assumes "copy_contract L"
    and "list_all2 (\<lambda>f d. load L (file_bytes f) False = Inr d) fs docs"
  shows "merge_assemble (Inr L) fs =
           (ImportPdfLib # CreateDoc # merge_calls fs docs, Inr (L, concat docs))"
  using merge_loop_concat [OF assms, of "[]"]
  by (simp add: merge_assemble_def andThen_await_Inr andThen_Inr returns_def create_def)

lemma merge_try_concat:
  assumes "copy_contract L"
    and "list_all2 (\<lambda>f d. load L (file_bytes f) False = Inr d) fs docs"
  shows "merge_try (Inr L) fs =
           (ImportPdfLib # CreateDoc # merge_calls fs docs @ [SaveDoc (concat docs)],
            map_sum id BlobUrl (save L (concat docs)))"
  by (cases "save L (concat docs)")
     (simp_all add: merge_try_def merge_assemble_concat [OF assms] andThen_Inr
       andThen_await_Inr andThen_await_Inl returns_def)

text \<open>
  Claim C3. Let the library keep its page-copy contract and let the files given to the merge
  parse to the documents \<open>docs\<close>, file by file. Then the assembly of \<^verbatim>\<open>mergePdfs\<close> loads
  each file and copies all of its page indices, in the order of the list, and the document
  it has assembled is the concatenation of \<open>docs\<close>: every source's pages in their own order,
  the sources in list order, and as many pages as the sources have together. That document
  is the one handed to \<^verbatim>\<open>save\<close>, and the result URL stands for its bytes.
\<close>

theorem merge_output_is_concatenation:
  assumes "copy_contract L"
    and "list_all2 (\<lambda>f d. load L (file_bytes f) False = Inr d) fs docs"
  shows "merge_assemble (Inr L) fs =
           (ImportPdfLib # CreateDoc # merge_calls fs docs, Inr (L, concat docs))
         \<and> length (concat docs) = sum_list (map length docs)
         \<and> merge_try (Inr L) fs =
           (ImportPdfLib # CreateDoc # merge_calls fs docs @ [SaveDoc (concat docs)],
            map_sum id BlobUrl (save L (concat docs)))"
  using merge_assemble_concat [OF assms] merge_try_concat [OF assms]
  by (simp add: length_concat)

theorem merge_output_is_concatenation_witness:
  "merge_assemble (Inr sound_lib) (files two_files) =
     ([ImportPdfLib, CreateDoc,
       LoadDoc (Some [10, 11, 12, 13, 14]) False, CopyPages [10, 11, 12, 13, 14] [0, 1, 2, 3, 4],
       LoadDoc (Some [20]) False, CopyPages [20] [0]],
      Inr (sound_lib, [10, 11, 12, 13, 14, 20]))
   \<and> snd (merge_try (Inr sound_lib) (files two_files)) = Inr (BlobUrl [10, 11, 12, 13, 14, 20])"
proof -
  have loads: "list_all2 (\<lambda>f d. load sound_lib (file_bytes f) False = Inr d)
                 (files two_files) [[10, 11, 12, 13, 14], [20]]"
    by (simp add: sound_lib_def two_files_def pdf_def)
  show ?thesis
    using merge_output_is_concatenation [OF sound_lib_contract loads]
    by (simp add: merge_calls_def two_files_def pdf_def sound_lib_def upt_conv_Cons)
qed

text \<open>
  Claim C4. Let the library keep its page-copy contract and let the file \<open>f\<close> parse to the
  document \<open>src\<close>. Then merging the list that holds just \<open>f\<close> assembles \<open>src\<close> itself: the
  same pages in the same order, hence the same page count. The artifact is the
  serialization of \<open>src\<close>.
\<close>

theorem merge_singleton_identity:
  assumes "copy_contract L"
    and "load L (file_bytes f) False = Inr src"
  shows "merge_assemble (Inr L) [f] =
           ([ImportPdfLib, CreateDoc, LoadDoc (file_bytes f) False,
             CopyPages src [0..<length src]], Inr (L, src))
         \<and> merge_try (Inr L) [f] =
           ([ImportPdfLib, CreateDoc, LoadDoc (file_bytes f) False,
             CopyPages src [0..<length src], SaveDoc src],
            map_sum id BlobUrl (save L src))"
proof -
  have loads: "list_all2 (\<lambda>f d. load L (file_bytes f) False = Inr d) [f] [src]"
    using assms(2) by simp
  show ?thesis
    using merge_assemble_concat [OF assms(1) loads] merge_try_concat [OF assms(1) loads]
    by (simp add: merge_calls_def)
qed

theorem merge_singleton_identity_witness:
  "merge_assemble (Inr sound_lib) [pdf ''b.pdf'' (Some [20, 21])] =
     ([ImportPdfLib, CreateDoc, LoadDoc (Some [20, 21]) False, CopyPages [20, 21] [0, 1]],
      Inr (sound_lib, [20, 21]))
   \<and> merge_try (Inr sound_lib) [pdf ''b.pdf'' (Some [20, 21])] =
     ([ImportPdfLib, CreateDoc, LoadDoc (Some [20, 21]) False, CopyPages [20, 21] [0, 1],
       SaveDoc [20, 21]], Inr (BlobUrl [20, 21]))"
proof -
  have ld: "load sound_lib (file_bytes (pdf ''b.pdf'' (Some [20, 21]))) False = Inr [20, 21]"
    by (simp add: sound_lib_def pdf_def)
  show ?thesis
    using merge_singleton_identity [OF sound_lib_contract ld]
    by (simp add: pdf_def sound_lib_def upt_conv_Cons)
qed

text \<open>
  Claim C9. With an empty file list \<^verbatim>\<open>mergePdfs\<close> performs one effect, the advisory
  message: it calls neither \<^verbatim>\<open>setProcessing\<close> nor \<^verbatim>\<open>setResultUrl\<close> nor the library, whatever
  the library is, and the state afterwards differs from the state before in the message only.
\<close>

theorem mergePdfs_empty_list:
  assumes "files s = []"
  shows "mergePdfs imported s = [SetMessage ''Carica almeno 1 PDF.'']
         \<and> run (mergePdfs imported s) s = s\<lparr>message := ''Carica almeno 1 PDF.''\<rparr>
         \<and> processing (run (mergePdfs imported s) s) = processing s
         \<and> resultUrl (run (mergePdfs imported s) s) = resultUrl s"
  using assms by (simp add: mergePdfs_def run_def)

theorem mergePdfs_empty_list_witness:
  "mergePdfs (Inr sound_lib) no_files = [SetMessage ''Carica almeno 1 PDF.'']
   \<and> run (mergePdfs (Inr sound_lib) no_files) no_files =
       \<lparr>files = [], processing = False, message = ''Carica almeno 1 PDF.'',
        resultUrl = Some (BlobUrl [1])\<rparr>"
proof -
  have "files no_files = []"
    by (simp add: no_files_def)
  from mergePdfs_empty_list [OF this, of "Inr sound_lib"] show ?thesis
    by (simp add: no_files_def run_def)
qed

section \<open>Compression\<close>

text \<open>
  Claim C5. Let the library keep its page-copy contract, let the file at \<open>fileIndex\<close> parse
  (with \<^verbatim>\<open>ignoreEncryption\<close>) to the document \<open>src\<close>, and let the serialization of \<open>src\<close>
  succeed with \<open>bytes\<close>. Then \<^verbatim>\<open>compressPdf\<close> assembles the copy-all assembly of \<open>src\<close>, which
  is \<open>src\<close>; its only library calls are the import, the load, the creation of the output,
  one copy of all page indices and the save of \<open>src\<close>; and it reports success with a result
  URL for \<open>bytes\<close>.
\<close>

theorem compress_is_copy_all:
  assumes "copy_contract L"
    and "fileIndex < length (files s)"
    and "load L (file_bytes (files s ! fileIndex)) True = Inr src"
    and "save L src = Inr bytes"
  shows "compress_assemble (Inr L) (files s) fileIndex quality =
           ([ImportPdfLib, LoadDoc (file_bytes (files s ! fileIndex)) True, CreateDoc,
             CopyPages src [0..<length src]], Inr (L, copy_all_spec src))
         \<and> copy_all_spec src = src
         \<and> compressPdf (Inr L) s fileIndex quality_arg =
           [SetProcessing True,
            SetMessage (''Compressione in corso... questo pu'' @ [CHR 0xF2] @
                        '' richiedere qualche secondo.''),
            ImportPdfLib, LoadDoc (file_bytes (files s ! fileIndex)) True, CreateDoc,
            CopyPages src [0..<length src], SaveDoc src,
            SetResultUrl (BlobUrl bytes),
            SetMessage (''Compressione (fallback) completata. Per compressione '' @
                        ''migliore usare endpoint server-side con PDF.js.''),
            SetProcessing False]"
proof -
  have spec: "copy_all_spec src = src"
    by (simp add: copy_all_spec_def assemble_spec_def map_nth)
  have asm: "compress_assemble (Inr L) (files s) fileIndex q =
           ([ImportPdfLib, LoadDoc (file_bytes (files s ! fileIndex)) True, CreateDoc,
             CopyPages src [0..<length src]], Inr (L, src))" for q
    by (simp add: compress_assemble_def andThen_await_Inr assms(3) copy_all_pages [OF assms(1)]
        getPageIndices_def returns_def create_def forEach_addPage_append)
  have "compress_try (Inr L) (files s) fileIndex q =
           ([ImportPdfLib, LoadDoc (file_bytes (files s ! fileIndex)) True, CreateDoc,
             CopyPages src [0..<length src], SaveDoc src], Inr (BlobUrl bytes))" for q
    by (simp add: compress_try_def asm andThen_Inr andThen_await_Inr assms(4) returns_def)
  then show ?thesis
    using asm spec assms(2) by (simp add: compressPdf_def)
qed

theorem compress_is_copy_all_witness:
  "compress_assemble (Inr sound_lib) (files two_files) 0 (6 / 10) =
     ([ImportPdfLib, LoadDoc (Some [10, 11, 12, 13, 14]) True, CreateDoc,
       CopyPages [10, 11, 12, 13, 14] [0, 1, 2, 3, 4]], Inr (sound_lib, [10, 11, 12, 13, 14]))
   \<and> resultUrl (run (compressPdf (Inr sound_lib) two_files 0 None) two_files) =
       Some (BlobUrl [10, 11, 12, 13, 14])"
proof -
  have ix: "0 < length (files two_files)"
    by (simp add: two_files_def)
  have ld: "load sound_lib (file_bytes (files two_files ! 0)) True = Inr [10, 11, 12, 13, 14]"
    by (simp add: sound_lib_def two_files_def pdf_def)
  have sv: "save sound_lib [10, 11, 12, 13, 14] = Inr [10, 11, 12, 13, 14]"
    by (simp add: sound_lib_def)
  show ?thesis
    using compress_is_copy_all [OF sound_lib_contract ix ld sv, of "6 / 10" None]
    by (simp add: two_files_def pdf_def upt_conv_Cons run_def)
qed

text \<open>
  Claim C10. The parameter \<open>quality\<close> of \<^verbatim>\<open>compressPdf\<close> is never read: for any two values
  of it, given or defaulted, the assembled document, the outcome of the \<^verbatim>\<open>try\<close> block and
  the whole sequence of effects are the same.
\<close>

theorem compress_ignores_quality:
  "compress_assemble imported fs fileIndex quality = compress_assemble imported fs fileIndex quality'
   \<and> compress_try imported fs fileIndex quality = compress_try imported fs fileIndex quality'
   \<and> compressPdf imported s fileIndex quality_arg = compressPdf imported s fileIndex quality_arg'"
proof (intro conjI)
  show "compress_assemble imported fs fileIndex quality =
        compress_assemble imported fs fileIndex quality'"
    unfolding compress_assemble_def ..
  show "compress_try imported fs fileIndex quality = compress_try imported fs fileIndex quality'"
    unfolding compress_try_def compress_assemble_def ..
  show "compressPdf imported s fileIndex quality_arg = compressPdf imported s fileIndex quality_arg'"
    unfolding compressPdf_def compress_try_def compress_assemble_def Let_def ..
qed

section \<open>File selection\<close>

text \<open>
  Claim C7. \<^verbatim>\<open>handleFilesSelected\<close> appends to the pending list exactly the chosen files whose
  advertised type is \<^verbatim>\<open>application/pdf\<close>, in the order chosen; the others are dropped. The
  content of a file plays no part: changing the contents of the chosen files changes the
  contents of the files appended and nothing else. With no file list in the event nothing is
  appended, and the other state cells are never touched.
\<close>

theorem handleFilesSelected_filters_by_type:
  "files (handleFilesSelected (Some chosen) s) =
     files s @ filter (\<lambda>f. file_type f = ''application/pdf'') chosen
   \<and> subseq (filter (\<lambda>f. file_type f = ''application/pdf'') chosen) chosen
   \<and> set (filter (\<lambda>f. file_type f = ''application/pdf'') chosen) =
       {f \<in> set chosen. file_type f = ''application/pdf''}
   \<and> files (handleFilesSelected (Some (map (file_bytes_update g) chosen)) s) =
       files s @ map (file_bytes_update g) (filter (\<lambda>f. file_type f = ''application/pdf'') chosen)
   \<and> files (handleFilesSelected None s) = files s
   \<and> processing (handleFilesSelected target_files s) = processing s
   \<and> message (handleFilesSelected target_files s) = message s
   \<and> resultUrl (handleFilesSelected target_files s) = resultUrl s"
proof -
  have "filter (\<lambda>f. file_type f = ''application/pdf'') (map (file_bytes_update g) chosen) =
        map (file_bytes_update g) (filter (\<lambda>f. file_type f = ''application/pdf'') chosen)"
    by (induction chosen) simp_all
  then show ?thesis
    by (simp add: handleFilesSelected_def)
qed

theorem handleFilesSelected_filters_by_type_witness:
  "files (handleFilesSelected
            (Some [pdf ''x.pdf'' (Some [1]),
                   \<lparr>file_name = ''y.txt'', file_size = 3, file_type = ''text/plain'',
                    file_bytes = Some [2]\<rparr>,
                   pdf ''z.pdf'' None]) two_files) =
     files two_files @ [pdf ''x.pdf'' (Some [1]), pdf ''z.pdf'' None]"
  using handleFilesSelected_filters_by_type
    [of "[pdf ''x.pdf'' (Some [1]),
          \<lparr>file_name = ''y.txt'', file_size = 3, file_type = ''text/plain'',
           file_bytes = Some [2]\<rparr>,
          pdf ''z.pdf'' None]" two_files]
  by (simp add: pdf_def)

section \<open>Page removal\<close>

text \<open>
  The handler copies exactly the indices the page selector returns: under the library's
  page-copy contract the document it assembles holds the source's pages at the kept
  indices, in increasing order of index.
\<close>

lemma toKeep_of_in_range: "\<forall>i \<in> set (toKeep_of n R). i < n"
  by (simp add: toKeep_of_filter)

lemma remove_assemble_keeps:
  assumes "copy_contract L"
    and "load L (file_bytes (fs ! fileIndex)) False = Inr src"
  shows "remove_assemble (Inr L) fs fileIndex R =
           ([ImportPdfLib, LoadDoc (file_bytes (fs ! fileIndex)) False, CreateDoc,
             CopyPages src (toKeep_of (length src) R)],
            Inr (L, map ((!) src) (toKeep_of (length src) R)))"
proof -
  have "copyPages L src (toKeep_of (length src) R) =
          Inr (map ((!) src) (toKeep_of (length src) R))"
    using assms(1) toKeep_of_in_range [of "length src" R]
    unfolding copy_contract_def by blast
  then show ?thesis
    by (simp add: remove_assemble_def andThen_await_Inr assms(2) getPageCount_def returns_def
        create_def forEach_addPage_append Let_def)
qed

lemma remove_page_2_of_5:
  "remove_assemble (Inr sound_lib) (files two_files) 0 [2] =
     ([ImportPdfLib, LoadDoc (Some [10, 11, 12, 13, 14]) False, CreateDoc,
       CopyPages [10, 11, 12, 13, 14] [0, 2, 3, 4]], Inr (sound_lib, [10, 12, 13, 14]))"
proof -
  have "load sound_lib (file_bytes (files two_files ! 0)) False = Inr [10, 11, 12, 13, 14]"
    by (simp add: sound_lib_def two_files_def pdf_def)
  from remove_assemble_keeps [OF sound_lib_contract this, of "[2]"] show ?thesis
    by (simp add: two_files_def pdf_def toKeep_of_filter upt_conv_Cons)
qed

section \<open>Failures and the processing flag\<close>

text \<open>A \<^verbatim>\<open>try\<close> block that reaches its end went through every stage.\<close>

lemma merge_loop_success:
  "merge_loop L fs acc = (evs, Inr out) \<Longrightarrow>
   \<exists>docs copies. list_all2 (\<lambda>f d. load L (file_bytes f) False = Inr d) fs docs
     \<and> list_all2 (\<lambda>d c. copyPages L d [0..<length d] = Inr c) docs copies
     \<and> out = acc @ concat copies"
proof (induction fs arbitrary: acc evs)
  case Nil
  then show ?case by (simp add: returns_def)
next
  case (Cons f fs)
  from Cons.prems obtain d where d: "load L (file_bytes f) False = Inr d"
    by (cases "load L (file_bytes f) False") (simp_all add: andThen_await_Inl)
  from Cons.prems d obtain c where c: "copyPages L d [0..<length d] = Inr c"
    by (cases "copyPages L d [0..<length d]")
       (simp_all add: andThen_await_Inl andThen_await_Inr getPageIndices_def)
  from Cons.prems d c have "snd (merge_loop L fs (acc @ c)) = Inr out"
    by (simp add: andThen_await_Inr getPageIndices_def forEach_addPage_append)
  then have "merge_loop L fs (acc @ c) = (fst (merge_loop L fs (acc @ c)), Inr out)"
    by (metis prod.collapse)
  from Cons.IH [OF this] obtain docs copies where
    "list_all2 (\<lambda>f d. load L (file_bytes f) False = Inr d) fs docs"
    "list_all2 (\<lambda>d c. copyPages L d [0..<length d] = Inr c) docs copies"
    "out = (acc @ c) @ concat copies"
    by blast
  with d c have "list_all2 (\<lambda>f d. load L (file_bytes f) False = Inr d) (f # fs) (d # docs)
     \<and> list_all2 (\<lambda>d c. copyPages L d [0..<length d] = Inr c) (d # docs) (c # copies)
     \<and> out = acc @ concat (c # copies)"
    by simp
  then show ?case by blast
qed

lemma merge_try_success:
  assumes "merge_try imported fs = (evs, Inr url)"
  shows "merge_complete imported fs url"
proof -
  from assms obtain L where L: "imported = Inr L"
    by (cases imported) (simp_all add: merge_try_def merge_assemble_def andThen_await_Inl andThen_Inl)
  obtain evs' r where loop: "merge_loop L fs [] = (evs', r)"
    by (cases "merge_loop L fs []")
  from assms L loop obtain out where out: "r = Inr out"
    by (cases r)
       (simp_all add: merge_try_def merge_assemble_def andThen_await_Inr andThen_Inl create_def)
  from assms L loop out obtain bytes where bytes: "save L out = Inr bytes" "url = BlobUrl bytes"
    by (cases "save L out")
       (simp_all add: merge_try_def merge_assemble_def andThen_await_Inr andThen_await_Inl
         andThen_Inr returns_def create_def)
  from merge_loop_success [OF loop [unfolded out]] obtain docs copies where
    "list_all2 (\<lambda>f d. load L (file_bytes f) False = Inr d) fs docs"
    "list_all2 (\<lambda>d c. copyPages L d [0..<length d] = Inr c) docs copies"
    "out = concat copies"
    by auto
  with L bytes show ?thesis
    unfolding merge_complete_def by blast
qed

lemma remove_try_success:
  assumes "remove_try imported fs i R = (evs, Inr url)"
  shows "single_complete imported (file_bytes (fs ! i)) False
           (\<lambda>src. toKeep_of (length src) R) url"
proof -
  from assms obtain L where L: "imported = Inr L"
    by (cases imported)
       (simp_all add: remove_try_def remove_assemble_def andThen_await_Inl andThen_Inl)
  from assms L obtain src where src: "load L (file_bytes (fs ! i)) False = Inr src"
    by (cases "load L (file_bytes (fs ! i)) False")
       (simp_all add: remove_try_def remove_assemble_def andThen_await_Inl andThen_await_Inr
         andThen_Inl)
  from assms L src obtain copied where
    copied: "copyPages L src (toKeep_of (length src) R) = Inr copied"
    by (cases "copyPages L src (toKeep_of (length src) R)")
       (simp_all add: remove_try_def remove_assemble_def andThen_await_Inl andThen_await_Inr
         andThen_Inl getPageCount_def)
  from assms L src copied obtain bytes where "save L copied = Inr bytes" "url = BlobUrl bytes"
    by (cases "save L copied")
       (simp_all add: remove_try_def remove_assemble_def andThen_await_Inl andThen_await_Inr
         andThen_Inr returns_def getPageCount_def create_def forEach_addPage_append)
  with L src copied show ?thesis
    unfolding single_complete_def by blast
qed

lemma compress_try_success:
  assumes "compress_try imported fs i q = (evs, Inr url)"
  shows "single_complete imported (file_bytes (fs ! i)) True (\<lambda>src. [0..<length src]) url"
proof -
  from assms obtain L where L: "imported = Inr L"
    by (cases imported)
       (simp_all add: compress_try_def compress_assemble_def andThen_await_Inl andThen_Inl)
  from assms L obtain src where src: "load L (file_bytes (fs ! i)) True = Inr src"
    by (cases "load L (file_bytes (fs ! i)) True")
       (simp_all add: compress_try_def compress_assemble_def andThen_await_Inl andThen_await_Inr
         andThen_Inl)
  from assms L src obtain copied where
    copied: "copyPages L src [0..<length src] = Inr copied"
    by (cases "copyPages L src [0..<length src]")
       (simp_all add: compress_try_def compress_assemble_def andThen_await_Inl andThen_await_Inr
         andThen_Inl getPageIndices_def)
  from assms L src copied obtain bytes where "save L copied = Inr bytes" "url = BlobUrl bytes"
    by (cases "save L copied")
       (simp_all add: compress_try_def compress_assemble_def andThen_await_Inl andThen_await_Inr
         andThen_Inr returns_def getPageIndices_def create_def forEach_addPage_append)
  with L src copied show ?thesis
    unfolding single_complete_def by blast
qed

lemma mergePdfs_outcome:
  assumes "files s \<noteq> []"
  shows "case merge_try imported (files s) of
           (evs, Inl err) \<Rightarrow>
             failure_reported (mergePdfs imported s) s ''Errore durante l'unione: '' err
         | (evs, Inr url) \<Rightarrow>
             artifact_produced (mergePdfs imported s) s
               ''Unione completata. Scarica il file qui sotto.'' url
             \<and> merge_complete imported (files s) url"
proof (cases "merge_try imported (files s)")
  case (Pair evs r)
  have calls: "\<forall>e \<in> set evs. \<not> is_setter e"
    using merge_try_calls [of imported "files s"] Pair by simp
  show ?thesis
  proof (cases r)
    case (Inl err)
    with Pair show ?thesis
      using handler_trace_failed [OF calls] by (simp add: mergePdfs_trace [OF assms])
  next
    case (Inr url)
    with Pair show ?thesis
      using handler_trace_succeeded [OF calls] merge_try_success [of imported "files s" evs url]
      by (simp add: mergePdfs_trace [OF assms])
  qed
qed

lemma removePagesFromPdf_outcome:
  assumes "i < length (files s)"
  shows "case remove_try imported (files s) i (default_to [] R_arg) of
           (evs, Inl err) \<Rightarrow>
             failure_reported (removePagesFromPdf imported s i R_arg) s ''Errore: '' err
         | (evs, Inr url) \<Rightarrow>
             artifact_produced (removePagesFromPdf imported s i R_arg) s
               ''Pagine rimosse. Scarica il risultato qui sotto.'' url
             \<and> single_complete imported (file_bytes (files s ! i)) False
                 (\<lambda>src. toKeep_of (length src) (default_to [] R_arg)) url"
proof (cases "remove_try imported (files s) i (default_to [] R_arg)")
  case (Pair evs r)
  have calls: "\<forall>e \<in> set evs. \<not> is_setter e"
    using remove_try_calls [of imported "files s" i "default_to [] R_arg"] Pair by simp
  show ?thesis
  proof (cases r)
    case (Inl err)
    with Pair show ?thesis
      using handler_trace_failed [OF calls] by (simp add: removePagesFromPdf_trace [OF assms])
  next
    case (Inr url)
    with Pair show ?thesis
      using handler_trace_succeeded [OF calls]
        remove_try_success [of imported "files s" i "default_to [] R_arg" evs url]
      by (simp add: removePagesFromPdf_trace [OF assms])
  qed
qed

lemma compressPdf_outcome:
  assumes "j < length (files s)"
  shows "case compress_try imported (files s) j (default_to (6 / 10) q_arg) of
           (evs, Inl err) \<Rightarrow>
             failure_reported (compressPdf imported s j q_arg) s
               ''Errore durante la compressione: '' err
         | (evs, Inr url) \<Rightarrow>
             artifact_produced (compressPdf imported s j q_arg) s
               (''Compressione (fallback) completata. Per compressione '' @
                ''migliore usare endpoint server-side con PDF.js.'') url
             \<and> single_complete imported (file_bytes (files s ! j)) True
                 (\<lambda>src. [0..<length src]) url"
proof (cases "compress_try imported (files s) j (default_to (6 / 10) q_arg)")
  case (Pair evs r)
  have calls: "\<forall>e \<in> set evs. \<not> is_setter e"
    using compress_try_calls [of imported "files s" j "default_to (6 / 10) q_arg"] Pair by simp
  show ?thesis
  proof (cases r)
    case (Inl err)
    with Pair show ?thesis
      using handler_trace_failed [OF calls] by (simp add: compressPdf_trace [OF assms])
  next
    case (Inr url)
    with Pair show ?thesis
      using handler_trace_succeeded [OF calls]
        compress_try_success [of imported "files s" j "default_to (6 / 10) q_arg" evs url]
      by (simp add: compressPdf_trace [OF assms])
  qed
qed

text \<open>
  Claim C6. Each of the three handlers, once past its guard, ends in one of two ways, decided
  by its \<^verbatim>\<open>try\<close> block. If a call of the block threw, at the import, while loading, while
  copying or while serializing, the handler logs the thrown value and sets the message to
  its lead text followed by the text of the thrown value; it never sets the result handle,
  which keeps its earlier value. If the block reached its end, the handler sets the result
  handle and its completion message, and the artifact is complete: every file concerned was
  parsed, every page selected was copied, and the URL stands for the serialization of
  exactly those pages.
\<close>

theorem failures_caught_no_partial_result:
  "(files s \<noteq> [] \<longrightarrow>
      (case merge_try imported (files s) of
         (evs, Inl err) \<Rightarrow>
           failure_reported (mergePdfs imported s) s ''Errore durante l'unione: '' err
       | (evs, Inr url) \<Rightarrow>
           artifact_produced (mergePdfs imported s) s
             ''Unione completata. Scarica il file qui sotto.'' url
           \<and> merge_complete imported (files s) url))
   \<and> (i < length (files s) \<longrightarrow>
      (case remove_try imported (files s) i (default_to [] R_arg) of
         (evs, Inl err) \<Rightarrow>
           failure_reported (removePagesFromPdf imported s i R_arg) s ''Errore: '' err
       | (evs, Inr url) \<Rightarrow>
           artifact_produced (removePagesFromPdf imported s i R_arg) s
             ''Pagine rimosse. Scarica il risultato qui sotto.'' url
           \<and> single_complete imported (file_bytes (files s ! i)) False
               (\<lambda>src. toKeep_of (length src) (default_to [] R_arg)) url))
   \<and> (j < length (files s) \<longrightarrow>
      (case compress_try imported (files s) j (default_to (6 / 10) q_arg) of
         (evs, Inl err) \<Rightarrow>
           failure_reported (compressPdf imported s j q_arg) s
             ''Errore durante la compressione: '' err
       | (evs, Inr url) \<Rightarrow>
           artifact_produced (compressPdf imported s j q_arg) s
             (''Compressione (fallback) completata. Per compressione '' @
              ''migliore usare endpoint server-side con PDF.js.'') url
           \<and> single_complete imported (file_bytes (files s ! j)) True
               (\<lambda>src. [0..<length src]) url))"
  using mergePdfs_outcome [of s imported] removePagesFromPdf_outcome [of i s imported R_arg]
    compressPdf_outcome [of j s imported q_arg]
  by blast

lemmas eval_simps =
  merge_try_def merge_assemble_def remove_try_def remove_assemble_def
  compress_try_def compress_assemble_def andThen_def await_def returns_def
  create_def getPageIndices_def getPageCount_def forEach_addPage_def addPage_def
  toKeep_of_filter default_to_def pdf_def upt_conv_Cons

theorem failures_caught_no_partial_result_witness:
  "failure_reported (mergePdfs (Inr faulty_lib) four_files) four_files
     ''Errore durante l'unione: '' (ErrorObject ''TypeError'' [])
   \<and> message (run (mergePdfs (Inr faulty_lib) four_files) four_files) =
       ''Errore durante l'unione: TypeError''
   \<and> resultUrl (run (mergePdfs (Inr faulty_lib) four_files) four_files) = Some (BlobUrl [1])
   \<and> failure_reported (removePagesFromPdf (Inr faulty_lib) four_files 0 (Some [2])) four_files
       ''Errore: '' (ThrownString ''out of memory'')
   \<and> failure_reported (compressPdf (Inr faulty_lib) four_files 2 None) four_files
       ''Errore durante la compressione: '' (ErrorObject ''Error'' ''Failed to parse PDF document'')
   \<and> artifact_produced (mergePdfs (Inr sound_lib) two_files) two_files
       ''Unione completata. Scarica il file qui sotto.'' (BlobUrl [10, 11, 12, 13, 14, 20])
   \<and> artifact_produced (removePagesFromPdf (Inr sound_lib) two_files 0 (Some [2])) two_files
       ''Pagine rimosse. Scarica il risultato qui sotto.'' (BlobUrl [10, 12, 13, 14])"
proof -
  have guards: "files four_files \<noteq> []" "0 < length (files four_files)"
    "2 < length (files four_files)" "files two_files \<noteq> []" "0 < length (files two_files)"
    by (simp_all add: four_files_def two_files_def)
  note bad = failures_caught_no_partial_result
    [of four_files "Inr faulty_lib" 0 "Some [2]" 2 None]
  note good = failures_caught_no_partial_result
    [of two_files "Inr sound_lib" 0 "Some [2]" 0 None]
  have m: "failure_reported (mergePdfs (Inr faulty_lib) four_files) four_files
     ''Errore durante l'unione: '' (ErrorObject ''TypeError'' [])"
    using bad guards(1) by (simp add: eval_simps four_files_def faulty_lib_def)
  have r: "failure_reported (removePagesFromPdf (Inr faulty_lib) four_files 0 (Some [2]))
     four_files ''Errore: '' (ThrownString ''out of memory'')"
    using bad guards(2) by (simp add: eval_simps four_files_def faulty_lib_def)
  have c: "failure_reported (compressPdf (Inr faulty_lib) four_files 2 None) four_files
     ''Errore durante la compressione: '' (ErrorObject ''Error'' ''Failed to parse PDF document'')"
    using bad guards(3) by (simp add: eval_simps four_files_def faulty_lib_def)
  have m': "artifact_produced (mergePdfs (Inr sound_lib) two_files) two_files
       ''Unione completata. Scarica il file qui sotto.'' (BlobUrl [10, 11, 12, 13, 14, 20])"
    using good guards(4) by (simp add: eval_simps two_files_def sound_lib_def)
  have r': "artifact_produced (removePagesFromPdf (Inr sound_lib) two_files 0 (Some [2]))
       two_files ''Pagine rimosse. Scarica il risultato qui sotto.'' (BlobUrl [10, 12, 13, 14])"
    using good guards(5) by (simp add: eval_simps two_files_def sound_lib_def)
  from m have "message (run (mergePdfs (Inr faulty_lib) four_files) four_files) =
       ''Errore durante l'unione: TypeError''
     \<and> resultUrl (run (mergePdfs (Inr faulty_lib) four_files) four_files) = Some (BlobUrl [1])"
    by (simp add: failure_reported_def four_files_def)
  with m r c m' r' show ?thesis
    by blast
qed

text \<open>
  Claim C8. Each of the three handlers, once past its guard, brackets its run with the
  processing flag: its first effect sets the flag, its last effect clears it, the flag is
  set in every state in between, and it is clear in the state the handler leaves, whether
  the \<^verbatim>\<open>try\<close> block succeeded or threw.
\<close>

theorem processing_flag_set_then_cleared:
  "(files s \<noteq> [] \<longrightarrow> processing_bracket (mergePdfs imported s) s)
   \<and> (i < length (files s) \<longrightarrow>
        processing_bracket (removePagesFromPdf imported s i R_arg) s)
   \<and> (j < length (files s) \<longrightarrow>
        processing_bracket (compressPdf imported s j q_arg) s)"
proof (intro conjI impI)
  assume "files s \<noteq> []"
  then show "processing_bracket (mergePdfs imported s) s"
    by (simp add: mergePdfs_trace handler_trace_bracket merge_try_calls)
next
  assume "i < length (files s)"
  then show "processing_bracket (removePagesFromPdf imported s i R_arg) s"
    by (simp add: removePagesFromPdf_trace handler_trace_bracket remove_try_calls)
next
  assume "j < length (files s)"
  then show "processing_bracket (compressPdf imported s j q_arg) s"
    by (simp add: compressPdf_trace handler_trace_bracket compress_try_calls)
qed

theorem processing_flag_set_then_cleared_witness:
  "processing_bracket (mergePdfs (Inr faulty_lib) four_files) four_files
   \<and> processing_bracket (removePagesFromPdf (Inr faulty_lib) four_files 3 (Some [2])) four_files
   \<and> processing_bracket (compressPdf (Inr faulty_lib) four_files 2 None) four_files
   \<and> \<not> processing (run (compressPdf (Inr faulty_lib) four_files 2 None) four_files)"
proof -
  have guards: "files four_files \<noteq> []" "3 < length (files four_files)"
    "2 < length (files four_files)"
    by (simp_all add: four_files_def)
  have all: "processing_bracket (mergePdfs (Inr faulty_lib) four_files) four_files
   \<and> processing_bracket (removePagesFromPdf (Inr faulty_lib) four_files 3 (Some [2])) four_files
   \<and> processing_bracket (compressPdf (Inr faulty_lib) four_files 2 None) four_files"
    using processing_flag_set_then_cleared [of four_files "Inr faulty_lib" 3 "Some [2]" 2 None]
      guards
    by blast
  then show ?thesis
    by (simp add: processing_bracket_def)
qed

end
